theory Spec2Isabelle
  imports Main
begin

section \<open>The sidebar menu of the chat history (app/components/sidebar/Menu.client.tsx)\<close>

text \<open>
  The component keeps four pieces of React state that matter for selection and deletion:
  the last-loaded entry list, the pending confirmation dialog, the selection-mode flag and
  the selected identifiers. Everything outside the component (the IndexedDB store behind
  \<open>db\<close>, \<open>localStorage\<close>, the \<open>chatId\<close> atom) is an abstract world \<open>'w\<close> that the
  imported operations read and change; those operations are parameters of the model.
  Every observable action (a toast, a console message, a call of an imported operation, an
  assignment to \<open>window.location.pathname\<close>) is recorded, in the order it happens, in a
  list of effects.
\<close>

subsection \<open>Data\<close>

text \<open>
  Modelled from the spec: the type \<open>ChatHistoryItem\<close> is declared in \<open>~/lib/persistence\<close>,
  which is not among the sources. The component reads \<open>id\<close>, \<open>urlId\<close> and \<open>description\<close>;
  the last two are tested for truthiness, so they may be absent. The field \<open>id\<close> is named
  \<open>id'\<close> here (\<open>id\<close> is the identity function of HOL).
\<close>

record ChatHistoryItem =
  id' :: string
  urlId :: "string option"
  description :: "string option"
  timestamp :: string

text \<open>The union type \<open>DialogContent\<close> (lines 39-42).\<close>

datatype DialogContent =
    Null
  | Delete ChatHistoryItem
  | BulkDelete "ChatHistoryItem list"

text \<open>
  The React state of \<open>Menu\<close> (lines 69-75). The field \<open>list\<close> is named \<open>list'\<close>.
\<close>

record MenuState =
  list' :: "ChatHistoryItem list"
  dialogContent :: DialogContent
  selectionMode :: bool
  selectedItems :: "string list"

definition initialState :: MenuState where
  "initialState =
     \<lparr>list' = [], dialogContent = Null, selectionMode = False, selectedItems = []\<rparr>"

text \<open>What the component does to its surroundings.\<close>

datatype Effect =
    ToastSuccess string
  | ToastError string
  | ToastWarning string
  | ToastInfo string
  | RemoveItem string
  | ConsoleError string
  | DeleteById string
  | GetAll
  | SetPathname string

text \<open>
  The imported operations. \<open>db\<close> is the module-level database handle (present or not).
  \<open>removeItem\<close> is \<open>localStorage.removeItem\<close> and \<open>deleteById\<close> the store's deletion;
  each either succeeds (\<open>Inr ()\<close>) or throws/rejects (\<open>Inl\<close> the message) and may change
  the world. \<open>getAll\<close> resolves with the stored entries or rejects with an error message.
  \<open>chatId\<close> is \<open>chatId.get()\<close>.
\<close>

record 'w Env =
  db :: bool
  removeItem :: "string \<Rightarrow> 'w \<Rightarrow> (string + unit) \<times> 'w"
  deleteById :: "string \<Rightarrow> 'w \<Rightarrow> (string + unit) \<times> 'w"
  getAll :: "'w \<Rightarrow> string + ChatHistoryItem list"
  chatId :: "'w \<Rightarrow> string option"

text \<open>The outcome of a handler that touches the world.\<close>

record 'w Result =
  worldOf :: 'w
  stateOf :: MenuState
  effectsOf :: "Effect list"

subsection \<open>JavaScript helpers\<close>

text \<open>Truthiness of an optional string: present and not empty.\<close>

definition truthy :: "string option \<Rightarrow> bool" where
  "truthy v = (case v of None \<Rightarrow> False | Some t \<Rightarrow> t \<noteq> [])"

text \<open>Decimal rendering of a count inside a template literal.\<close>

definition digit_char :: "nat \<Rightarrow> char" where
  "digit_char n = ''0123456789'' ! (n mod 10)"

function string_of_nat :: "nat \<Rightarrow> string" where
  "string_of_nat n =
     (if n < 10 then [digit_char n] else string_of_nat (n div 10) @ [digit_char n])"
  by pat_completeness auto
termination
  by (relation "measure (\<lambda>n. n)") auto

declare string_of_nat.simps [simp del]

text \<open>
  \<open>[...new Set(xs)]\<close>: the elements of \<open>xs\<close> in order of first occurrence.
\<close>

definition new_Set :: "'a list \<Rightarrow> 'a list" where
  "new_Set xs = foldl (\<lambda>acc x. if x \<in> set acc then acc else acc @ [x]) [] xs"

subsection \<open>Loading the entry list (lines 82-89)\<close>

text \<open>
  \<open>loadEntries\<close> returns at once after calling \<open>getAll\<close> (when \<open>db\<close> is set); the list
  is replaced, or the error shown, only when the promise settles, which is after the
  caller's remaining synchronous steps. \<open>loadEntries\<close> is the call, \<open>loadEntries_then\<close>
  the settlement.
\<close>

definition loadEntries :: "'w Env \<Rightarrow> Effect list" where
  "loadEntries env = (if db env then [GetAll] else [])"

definition loadEntries_then :: "'w Env \<Rightarrow> 'w \<Rightarrow> MenuState \<Rightarrow> MenuState \<times> Effect list" where
  "loadEntries_then env w s =
     (if db env then
        (case getAll env w of
           Inr l \<Rightarrow>
             (s\<lparr>list' := filter (\<lambda>item. truthy (urlId item) \<and> truthy (description item)) l\<rparr>, [])
         | Inl message \<Rightarrow> (s, [ToastError message]))
      else (s, []))"

subsection \<open>Deleting one chat (lines 91-126)\<close>

definition deleteChat :: "'w Env \<Rightarrow> string \<Rightarrow> 'w \<Rightarrow> (string + unit) \<times> 'w \<times> Effect list" where
  "deleteChat env i w =
     (if \<not> db env then (Inl ''Database not available'', w, [])
      else
        let snapshotKey = ''snapshot:'' @ i;
            (removed, w1) = removeItem env snapshotKey w;
            logged = (case removed of
                        Inl snapshotError \<Rightarrow>
                          [ConsoleError (''Error deleting snapshot for chat '' @ i @ '':'')]
                      | Inr _ \<Rightarrow> []);
            (deleted, w2) = deleteById env i w1
        in (deleted, w2, [RemoveItem snapshotKey] @ logged @ [DeleteById i]))"

definition deleteItem :: "'w Env \<Rightarrow> ChatHistoryItem \<Rightarrow> 'w \<Rightarrow> MenuState \<Rightarrow> 'w Result" where
  "deleteItem env item w s =
     (case deleteChat env (id' item) w of
        (Inr _, w1, es) \<Rightarrow>
          let (s1, later) = loadEntries_then env w1 s
          in \<lparr>worldOf = w1, stateOf = s1,
              effectsOf = es @ [ToastSuccess ''Chat deleted successfully''] @ loadEntries env
                @ (if chatId env w1 = Some (id' item) then [SetPathname ''/''] else [])
                @ later\<rparr>
      | (Inl error, w1, es) \<Rightarrow>
          let (s1, later) = loadEntries_then env w1 s
          in \<lparr>worldOf = w1, stateOf = s1,
              effectsOf = es @ [ToastError ''Failed to delete conversation''] @ loadEntries env
                @ later\<rparr>)"

subsection \<open>Deleting the selected chats (lines 128-166)\<close>

text \<open>The variables of the loop, with the world and the effects so far.\<close>

record 'w BulkRun =
  deletedCount :: nat
  errors :: "string list"
  shouldNavigate :: bool
  world :: 'w
  trace :: "Effect list"

fun deleteSelectedItems_loop ::
  "'w Env \<Rightarrow> string option \<Rightarrow> string list \<Rightarrow> 'w BulkRun \<Rightarrow> 'w BulkRun" where
  "deleteSelectedItems_loop env currentChatId [] r = r"
| "deleteSelectedItems_loop env currentChatId (i # ids) r =
     (case deleteChat env i (world r) of
        (Inr _, w1, es) \<Rightarrow>
          deleteSelectedItems_loop env currentChatId ids
            (r\<lparr>deletedCount := deletedCount r + 1,
               shouldNavigate := (if Some i = currentChatId then True else shouldNavigate r),
               world := w1, trace := trace r @ es\<rparr>)
      | (Inl error, w1, es) \<Rightarrow>
          deleteSelectedItems_loop env currentChatId ids
            (r\<lparr>errors := errors r @ [i], world := w1, trace := trace r @ es\<rparr>))"

definition deleteSelectedItems ::
  "'w Env \<Rightarrow> string list \<Rightarrow> 'w \<Rightarrow> MenuState \<Rightarrow> 'w Result" where
  "deleteSelectedItems env itemsToDeleteIds w s =
     (if \<not> db env \<or> length itemsToDeleteIds = 0 then
        \<lparr>worldOf = w, stateOf = s, effectsOf = []\<rparr>
      else
        let currentChatId = chatId env w;
            r = deleteSelectedItems_loop env currentChatId itemsToDeleteIds
                  \<lparr>deletedCount = 0, errors = [], shouldNavigate = False, world = w, trace = []\<rparr>;
            notice =
              (if length (errors r) = 0 then
                 ToastSuccess (string_of_nat (deletedCount r) @ '' chat''
                   @ (if deletedCount r = 1 then '''' else ''s'') @ '' deleted successfully'')
               else
                 ToastWarning (''Deleted '' @ string_of_nat (deletedCount r) @ '' of ''
                   @ string_of_nat (length itemsToDeleteIds) @ '' chats. ''
                   @ string_of_nat (length (errors r)) @ '' failed.''));
            s1 = s\<lparr>selectedItems := [], selectionMode := False\<rparr>;
            (s2, later) = loadEntries_then env (world r) s1
        in \<lparr>worldOf = world r, stateOf = s2,
            effectsOf = trace r @ [notice] @ loadEntries env
              @ (if shouldNavigate r then [SetPathname ''/''] else [])
              @ later\<rparr>)"

subsection \<open>Selection (lines 168-200)\<close>

definition closeDialog :: "MenuState \<Rightarrow> MenuState" where
  "closeDialog s = s\<lparr>dialogContent := Null\<rparr>"

definition toggleSelectionMode :: "MenuState \<Rightarrow> MenuState" where
  "toggleSelectionMode s =
     (if selectionMode s then s\<lparr>selectionMode := \<not> selectionMode s, selectedItems := []\<rparr>
      else s\<lparr>selectionMode := \<not> selectionMode s\<rparr>)"

definition toggleItemSelection :: "string \<Rightarrow> MenuState \<Rightarrow> MenuState" where
  "toggleItemSelection i s =
     (let prev = selectedItems s
      in s\<lparr>selectedItems :=
            (if i \<in> set prev then filter (\<lambda>itemId. itemId \<noteq> i) prev else prev @ [i])\<rparr>)"

definition handleBulkDeleteClick :: "MenuState \<Rightarrow> MenuState \<times> Effect list" where
  "handleBulkDeleteClick s =
     (if length (selectedItems s) = 0 then (s, [ToastInfo ''Select at least one chat to delete''])
      else
        let selectedChats = filter (\<lambda>item. id' item \<in> set (selectedItems s)) (list' s)
        in if length selectedChats = 0 then (s, [ToastError ''Could not find selected chats''])
           else (s\<lparr>dialogContent := BulkDelete selectedChats\<rparr>, []))"

text \<open>
  \<open>filteredList\<close> comes from the hook \<open>useSearchFilter\<close>, which is not among the sources;
  it is a parameter.
\<close>

definition selectAll :: "ChatHistoryItem list \<Rightarrow> MenuState \<Rightarrow> MenuState" where
  "selectAll filteredList s =
     (let allFilteredIds = map id' filteredList;
          prev = selectedItems s;
          allFilteredAreSelected =
            (length allFilteredIds > 0 \<and> list_all (\<lambda>i. i \<in> set prev) allFilteredIds)
      in s\<lparr>selectedItems :=
            (if allFilteredAreSelected then filter (\<lambda>i. i \<notin> set allFilteredIds) prev
             else new_Set (prev @ allFilteredIds))\<rparr>)"

subsection \<open>The handlers wired into the rendered tree (lines 325-372)\<close>

text \<open>\<open>onDelete\<close> of a history item opens the single-delete confirmation.\<close>

definition onDelete :: "ChatHistoryItem \<Rightarrow> MenuState \<Rightarrow> MenuState" where
  "onDelete item s = s\<lparr>dialogContent := Delete item\<rparr>"

text \<open>
  The danger button of the open dialog: \<open>deleteItem(event, dialogContent.item)\<close> for a
  single delete, \<open>deleteSelectedItems([...selectedItems])\<close> for a bulk delete, each
  followed by \<open>closeDialog()\<close>. With no dialog there is no button.
\<close>

definition dialogConfirm :: "'w Env \<Rightarrow> 'w \<Rightarrow> MenuState \<Rightarrow> 'w Result" where
  "dialogConfirm env w s =
     (case dialogContent s of
        Null \<Rightarrow> \<lparr>worldOf = w, stateOf = s, effectsOf = []\<rparr>
      | Delete item \<Rightarrow>
          (let r = deleteItem env item w s in r\<lparr>stateOf := closeDialog (stateOf r)\<rparr>)
      | BulkDelete items \<Rightarrow>
          (let r = deleteSelectedItems env (selectedItems s) w s
           in r\<lparr>stateOf := closeDialog (stateOf r)\<rparr>))"

text \<open>
  Opening the menu reloads the list (lines 202-206). \<open>handleDuplicate\<close> (lines 222-225)
  ends with the same reload, so on the state of the component it acts as \<open>openMenu\<close> does.
\<close>

definition openMenu :: "'w Env \<Rightarrow> 'w \<Rightarrow> MenuState \<Rightarrow> 'w Result" where
  "openMenu env w s =
     (let (s1, later) = loadEntries_then env w s
      in \<lparr>worldOf = w, stateOf = s1, effectsOf = loadEntries env @ later\<rparr>)"

subsection \<open>Runs of the component\<close>

text \<open>
  A user action, with the state of the outside world at that moment where the handler
  reads it, and the visible list where the handler uses it.
\<close>

datatype 'w Action =
    ToggleSelectionMode
  | ToggleItemSelection string
  | SelectAll "ChatHistoryItem list"
  | HandleBulkDeleteClick
  | OnDelete ChatHistoryItem
  | CloseDialog
  | DialogConfirm 'w
  | OpenMenu 'w

fun step :: "'w Env \<Rightarrow> MenuState \<Rightarrow> 'w Action \<Rightarrow> MenuState" where
  "step env s ToggleSelectionMode = toggleSelectionMode s"
| "step env s (ToggleItemSelection i) = toggleItemSelection i s"
| "step env s (SelectAll filteredList) = selectAll filteredList s"
| "step env s HandleBulkDeleteClick = fst (handleBulkDeleteClick s)"
| "step env s (OnDelete item) = onDelete item s"
| "step env s CloseDialog = closeDialog s"
| "step env s (DialogConfirm w) = stateOf (dialogConfirm env w s)"
| "step env s (OpenMenu w) = stateOf (openMenu env w s)"

definition run :: "'w Env \<Rightarrow> 'w Action list \<Rightarrow> MenuState" where
  "run env actions = foldl (step env) initialState actions"

subsection \<open>Reading a list of effects\<close>

definition deleteByIdCalls :: "Effect list \<Rightarrow> string list" where
  "deleteByIdCalls es = concat (map (\<lambda>e. case e of DeleteById i \<Rightarrow> [i] | _ \<Rightarrow> []) es)"

definition isToast :: "Effect \<Rightarrow> bool" where
  "isToast e =
     (case e of ToastSuccess _ \<Rightarrow> True | ToastError _ \<Rightarrow> True | ToastWarning _ \<Rightarrow> True
      | ToastInfo _ \<Rightarrow> True | _ \<Rightarrow> False)"

definition isStoreCall :: "Effect \<Rightarrow> bool" where
  "isStoreCall e =
     (case e of DeleteById _ \<Rightarrow> True | GetAll \<Rightarrow> True | RemoveItem _ \<Rightarrow> True | _ \<Rightarrow> False)"

definition isNavigation :: "Effect \<Rightarrow> bool" where
  "isNavigation e = (case e of SetPathname _ \<Rightarrow> True | _ \<Rightarrow> False)"

text \<open>
  What each identifier's \<open>deleteChat\<close> did during a bulk delete, read off the world alone:
  the identifier with \<open>True\<close> when its deletion resolved and \<open>False\<close> when it threw.
\<close>

fun deleteChat_outcomes :: "'w Env \<Rightarrow> string list \<Rightarrow> 'w \<Rightarrow> (string \<times> bool) list" where
  "deleteChat_outcomes env [] w = []"
| "deleteChat_outcomes env (i # ids) w =
     (case deleteChat env i w of
        (Inr _, w1, es) \<Rightarrow> (i, True) # deleteChat_outcomes env ids w1
      | (Inl _, w1, es) \<Rightarrow> (i, False) # deleteChat_outcomes env ids w1)"

definition succeededIds :: "'w Env \<Rightarrow> string list \<Rightarrow> 'w \<Rightarrow> string list" where
  "succeededIds env ids w = map fst (filter snd (deleteChat_outcomes env ids w))"

definition failedIds :: "'w Env \<Rightarrow> string list \<Rightarrow> 'w \<Rightarrow> string list" where
  "failedIds env ids w = map fst (filter (\<lambda>p. \<not> snd p) (deleteChat_outcomes env ids w))"

subsection \<open>A sample store\<close>

text \<open>
  A concrete world for closed instances of the theorems: the world is the list of stored
  chats. Removing a side-cache key throws for the keys in \<open>unremovable\<close>, deleting an
  identifier rejects for the identifiers in \<open>failing\<close> and otherwise removes the chat,
  \<open>getAll\<close> resolves with the stored chats, and \<open>current\<close> is the active chat.
\<close>

definition exampleEnv ::
  "string list \<Rightarrow> string list \<Rightarrow> string option \<Rightarrow> (ChatHistoryItem list) Env" where
  "exampleEnv unremovable failing current =
     \<lparr>db = True,
      removeItem = (\<lambda>k w. if k \<in> set unremovable then (Inl ''SecurityError'', w) else (Inr (), w)),
      deleteById = (\<lambda>i w. if i \<in> set failing then (Inl ''TransactionInactiveError'', w)
                           else (Inr (), filter (\<lambda>item. id' item \<noteq> i) w)),
      getAll = (\<lambda>w. Inr w),
      chatId = (\<lambda>w. current)\<rparr>"

definition chat :: "string \<Rightarrow> ChatHistoryItem" where
  "chat i =
     \<lparr>id' = i, urlId = Some i, description = Some (''chat '' @ i), timestamp = ''2024-01-01''\<rparr>"

text \<open>
  A store whose deletion removes the chat and then rejects all the same: after the failure
  the chat is gone.
\<close>

definition exampleEnv_gone :: "(ChatHistoryItem list) Env" where
  "exampleEnv_gone =
     (exampleEnv [] [] None)
       \<lparr>deleteById := (\<lambda>i w. (Inl ''AbortError'', filter (\<lambda>item. id' item \<noteq> i) w))\<rparr>"

section \<open>Auxiliary facts\<close>

subsection \<open>Set construction\<close>

lemma foldl_add_set:
  "set (foldl (\<lambda>acc x. if x \<in> set acc then acc else acc @ [x]) acc xs) = set acc \<union> set xs"
  by (induction xs arbitrary: acc) auto

lemma foldl_add_distinct:
  "distinct acc \<Longrightarrow> distinct (foldl (\<lambda>acc x. if x \<in> set acc then acc else acc @ [x]) acc xs)"
  by (induction xs arbitrary: acc) auto

lemma foldl_add_id:
  "distinct (acc @ xs) \<Longrightarrow> foldl (\<lambda>acc x. if x \<in> set acc then acc else acc @ [x]) acc xs = acc @ xs"
  by (induction xs arbitrary: acc) auto

lemma set_new_Set: "set (new_Set xs) = set xs"
  by (simp add: new_Set_def foldl_add_set)

lemma distinct_new_Set: "distinct (new_Set xs)"
  by (simp add: new_Set_def foldl_add_distinct)

lemma new_Set_distinct_id: "distinct xs \<Longrightarrow> new_Set xs = xs"
  using foldl_add_id [of "[]" xs] by (simp add: new_Set_def)

subsection \<open>Selection handlers\<close>

lemma toggle_set:
  "set (selectedItems (toggleItemSelection i s)) =
     (if i \<in> set (selectedItems s) then set (selectedItems s) - {i} else insert i (set (selectedItems s)))"
  by (auto simp: toggleItemSelection_def Let_def)

lemma toggle_mem: "i \<in> set (selectedItems (toggleItemSelection i s)) \<longleftrightarrow> i \<notin> set (selectedItems s)"
  by (simp add: toggle_set)

lemma toggle_iter:
  "i \<in> set (selectedItems ((toggleItemSelection i ^^ n) s)) \<longleftrightarrow> (if even n then i \<in> set (selectedItems s) else i \<notin> set (selectedItems s))"
  by (induction n) (auto simp: toggle_mem)

lemma selectAll_set:
  "set (selectedItems (selectAll filteredList s)) =
     (if set (map id' filteredList) \<noteq> {} \<and> set (map id' filteredList) \<subseteq> set (selectedItems s)
      then set (selectedItems s) - set (map id' filteredList)
      else set (selectedItems s) \<union> set (map id' filteredList))"
  by (auto simp: selectAll_def Let_def set_new_Set list_all_iff)

lemma selectAll_empty_distinct:
  "distinct (selectedItems s) \<Longrightarrow> selectAll [] s = s"
  by (simp add: selectAll_def new_Set_distinct_id)

subsection \<open>The selection across handlers\<close>

lemma loadEntries_then_selected: "selectedItems (fst (loadEntries_then env w s)) = selectedItems s"
  by (simp add: loadEntries_then_def split: sum.splits)

lemma loadEntries_then_mode: "selectionMode (fst (loadEntries_then env w s)) = selectionMode s"
  by (simp add: loadEntries_then_def split: sum.splits)

lemma loadEntries_then_effects:
  "snd (loadEntries_then env w s) =
     (if db env then (case getAll env w of Inl message \<Rightarrow> [ToastError message] | Inr l \<Rightarrow> [])
      else [])"
  by (simp add: loadEntries_then_def split: sum.splits)

lemma deleteItem_selected: "selectedItems (stateOf (deleteItem env item w s)) = selectedItems s"
  by (simp add: deleteItem_def Let_def case_prod_beta loadEntries_then_selected split: sum.splits)

lemma deleteSelectedItems_selected:
  "selectedItems (stateOf (deleteSelectedItems env ids w s)) = (if db env \<and> ids \<noteq> [] then [] else selectedItems s)"
  by (simp add: deleteSelectedItems_def Let_def case_prod_beta loadEntries_then_selected)

lemma step_distinct:
  "distinct (selectedItems s) \<Longrightarrow> distinct (selectedItems (step env s a))"
proof (cases a)
  case (DialogConfirm w)
  assume "distinct (selectedItems s)"
  then show ?thesis
    using DialogConfirm
    by (simp add: dialogConfirm_def closeDialog_def Let_def deleteItem_selected
        deleteSelectedItems_selected split: DialogContent.splits)
next
  case (OpenMenu w)
  assume "distinct (selectedItems s)"
  then show ?thesis
    using OpenMenu
    by (simp add: openMenu_def Let_def case_prod_beta loadEntries_then_selected)
qed (auto simp: toggleSelectionMode_def toggleItemSelection_def selectAll_def Let_def
      distinct_new_Set handleBulkDeleteClick_def onDelete_def closeDialog_def)

lemma foldl_step_distinct:
  "distinct (selectedItems s) \<Longrightarrow> distinct (selectedItems (foldl (step env) s actions))"
  by (induction actions arbitrary: s) (simp_all add: step_distinct)

lemma run_distinct: "distinct (selectedItems (run env actions))"
  by (simp add: run_def foldl_step_distinct initialState_def)

subsection \<open>One deletion\<close>

lemma deleteByIdCalls_append [simp]: "deleteByIdCalls (xs @ ys) = deleteByIdCalls xs @ deleteByIdCalls ys"
  by (simp add: deleteByIdCalls_def)

lemma deleteByIdCalls_simps [simp]:
  "deleteByIdCalls [] = []"
  "deleteByIdCalls (DeleteById i # es) = i # deleteByIdCalls es"
  "deleteByIdCalls (ToastSuccess m # es) = deleteByIdCalls es"
  "deleteByIdCalls (ToastError m # es) = deleteByIdCalls es"
  "deleteByIdCalls (ToastWarning m # es) = deleteByIdCalls es"
  "deleteByIdCalls (ToastInfo m # es) = deleteByIdCalls es"
  "deleteByIdCalls (RemoveItem m # es) = deleteByIdCalls es"
  "deleteByIdCalls (ConsoleError m # es) = deleteByIdCalls es"
  "deleteByIdCalls (GetAll # es) = deleteByIdCalls es"
  "deleteByIdCalls (SetPathname m # es) = deleteByIdCalls es"
  by (simp_all add: deleteByIdCalls_def)

lemma deleteChat_effects:
  "db env \<Longrightarrow> snd (snd (deleteChat env i w)) =
     RemoveItem (''snapshot:'' @ i)
       # (case fst (removeItem env (''snapshot:'' @ i) w) of
            Inl snapshotError \<Rightarrow> [ConsoleError (''Error deleting snapshot for chat '' @ i @ '':'')]
          | Inr _ \<Rightarrow> [])
       @ [DeleteById i]"
  by (simp add: deleteChat_def Let_def case_prod_beta)

lemma deleteChat_result:
  "db env \<Longrightarrow> fst (deleteChat env i w) =
     fst (deleteById env i (snd (removeItem env (''snapshot:'' @ i) w)))"
  by (simp add: deleteChat_def Let_def case_prod_beta)

lemma deleteChat_world:
  "db env \<Longrightarrow> fst (snd (deleteChat env i w)) =
     snd (deleteById env i (snd (removeItem env (''snapshot:'' @ i) w)))"
  by (simp add: deleteChat_def Let_def case_prod_beta)

lemma deleteChat_calls:
  "deleteByIdCalls (snd (snd (deleteChat env i w))) = (if db env then [i] else [])"
  by (simp add: deleteChat_def Let_def case_prod_beta deleteByIdCalls_def split: sum.splits)

lemma deleteChat_no_toast: "filter isToast (snd (snd (deleteChat env i w))) = []"
  by (simp add: deleteChat_def Let_def case_prod_beta isToast_def split: sum.splits)

lemma deleteChat_no_navigation: "filter isNavigation (snd (snd (deleteChat env i w))) = []"
  by (simp add: deleteChat_def Let_def case_prod_beta isNavigation_def split: sum.splits)

lemma deleteChat_no_GetAll: "GetAll \<notin> set (snd (snd (deleteChat env i w)))"
  by (simp add: deleteChat_def Let_def case_prod_beta split: sum.splits)

subsection \<open>The loop of the bulk delete\<close>

lemma succeededIds_Cons:
  "succeededIds env (i # ids) w =
     (case deleteChat env i w of
        (Inr u, w1, es) \<Rightarrow> i # succeededIds env ids w1
      | (Inl e, w1, es) \<Rightarrow> succeededIds env ids w1)"
  by (simp add: succeededIds_def split: prod.splits sum.splits)

lemma failedIds_Cons:
  "failedIds env (i # ids) w =
     (case deleteChat env i w of
        (Inr u, w1, es) \<Rightarrow> failedIds env ids w1
      | (Inl e, w1, es) \<Rightarrow> i # failedIds env ids w1)"
  by (simp add: failedIds_def split: prod.splits sum.splits)

lemma outcomes_length: "length (deleteChat_outcomes env ids w) = length ids"
  by (induction ids arbitrary: w) (auto split: prod.splits sum.splits)

lemma succeeded_failed_length:
  "length (succeededIds env ids w) + length (failedIds env ids w) = length ids"
  using sum_length_filter_compl [of snd "deleteChat_outcomes env ids w"]
  by (simp add: succeededIds_def failedIds_def outcomes_length)

lemma loop_calls:
  "deleteByIdCalls (trace (deleteSelectedItems_loop env c ids r)) =
     deleteByIdCalls (trace r) @ (if db env then ids else [])"
proof (induction ids arbitrary: r)
  case Nil
  show ?case by simp
next
  case (Cons i ids)
  obtain res w1 es where d: "deleteChat env i (world r) = (res, w1, es)"
    by (cases "deleteChat env i (world r)") auto
  have "deleteByIdCalls es = (if db env then [i] else [])"
    using deleteChat_calls [of env i "world r"] d by simp
  then show ?case
    using d by (cases res) (simp_all add: Cons.IH)
qed

lemma loop_toasts:
  "filter isToast (trace (deleteSelectedItems_loop env c ids r)) = filter isToast (trace r)"
proof (induction ids arbitrary: r)
  case Nil
  show ?case by simp
next
  case (Cons i ids)
  obtain res w1 es where d: "deleteChat env i (world r) = (res, w1, es)"
    by (cases "deleteChat env i (world r)") auto
  have "filter isToast es = []"
    using deleteChat_no_toast [of env i "world r"] d by simp
  then show ?case
    using d by (cases res) (simp_all add: Cons.IH)
qed

lemma loop_navigations:
  "filter isNavigation (trace (deleteSelectedItems_loop env c ids r)) = filter isNavigation (trace r)"
proof (induction ids arbitrary: r)
  case Nil
  show ?case by simp
next
  case (Cons i ids)
  obtain res w1 es where d: "deleteChat env i (world r) = (res, w1, es)"
    by (cases "deleteChat env i (world r)") auto
  have "filter isNavigation es = []"
    using deleteChat_no_navigation [of env i "world r"] d by simp
  then show ?case
    using d by (cases res) (simp_all add: Cons.IH)
qed

lemma loop_no_GetAll:
  "GetAll \<notin> set (trace r) \<Longrightarrow> GetAll \<notin> set (trace (deleteSelectedItems_loop env c ids r))"
proof (induction ids arbitrary: r)
  case Nil
  then show ?case by simp
next
  case (Cons i ids)
  obtain res w1 es where d: "deleteChat env i (world r) = (res, w1, es)"
    by (cases "deleteChat env i (world r)") auto
  have "GetAll \<notin> set es"
    using deleteChat_no_GetAll [of env i "world r"] d by simp
  then show ?case
    using d Cons.prems by (cases res) (simp_all add: Cons.IH)
qed

lemma loop_deletedCount:
  "deletedCount (deleteSelectedItems_loop env c ids r) =
     deletedCount r + length (succeededIds env ids (world r))"
proof (induction ids arbitrary: r)
  case Nil
  show ?case by (simp add: succeededIds_def)
next
  case (Cons i ids)
  obtain res w1 es where d: "deleteChat env i (world r) = (res, w1, es)"
    by (cases "deleteChat env i (world r)") auto
  show ?case
    using d Cons.IH by (cases res) (simp_all add: succeededIds_def)
qed

lemma loop_errors:
  "errors (deleteSelectedItems_loop env c ids r) = errors r @ failedIds env ids (world r)"
proof (induction ids arbitrary: r)
  case Nil
  show ?case by (simp add: failedIds_def)
next
  case (Cons i ids)
  obtain res w1 es where d: "deleteChat env i (world r) = (res, w1, es)"
    by (cases "deleteChat env i (world r)") auto
  show ?case
    using d Cons.IH by (cases res) (simp_all add: failedIds_def)
qed

lemma loop_shouldNavigate:
  "shouldNavigate (deleteSelectedItems_loop env c ids r) =
     (shouldNavigate r \<or> (case c of None \<Rightarrow> False | Some a \<Rightarrow> a \<in> set (succeededIds env ids (world r))))"
proof (induction ids arbitrary: r)
  case Nil
  show ?case by (simp add: succeededIds_def split: option.splits)
next
  case (Cons i ids)
  obtain res w1 es where d: "deleteChat env i (world r) = (res, w1, es)"
    by (cases "deleteChat env i (world r)") auto
  show ?case
  proof (cases res)
    case (Inl e)
    then show ?thesis using d by (auto simp: Cons.IH succeededIds_Cons split: option.splits)
  next
    case (Inr u)
    then show ?thesis using d by (auto simp: Cons.IH succeededIds_Cons split: option.splits)
  qed
qed

text \<open>
  The effects of a bulk delete that runs (store present, identifiers given), in order: the
  effects of the deletions, the notice, the call of \<open>getAll\<close>, the navigation if the active
  chat was deleted, and last what the settled reload shows.
\<close>

lemma deleteSelectedItems_effects:
  assumes "db env" and "ids \<noteq> []"
  shows "effectsOf (deleteSelectedItems env ids w s) =
     trace (deleteSelectedItems_loop env (chatId env w) ids
              \<lparr>deletedCount = 0, errors = [], shouldNavigate = False, world = w, trace = []\<rparr>)
     @ [if failedIds env ids w = [] then
          ToastSuccess (string_of_nat (length (succeededIds env ids w)) @ '' chat''
            @ (if length (succeededIds env ids w) = 1 then '''' else ''s'')
            @ '' deleted successfully'')
        else
          ToastWarning (''Deleted '' @ string_of_nat (length (succeededIds env ids w)) @ '' of ''
            @ string_of_nat (length ids) @ '' chats. ''
            @ string_of_nat (length (failedIds env ids w)) @ '' failed.'')]
     @ [GetAll]
     @ (if (case chatId env w of None \<Rightarrow> False | Some a \<Rightarrow> a \<in> set (succeededIds env ids w))
        then [SetPathname ''/''] else [])
     @ (case getAll env (worldOf (deleteSelectedItems env ids w s)) of
          Inl message \<Rightarrow> [ToastError message] | Inr l \<Rightarrow> [])"
  using assms
  by (simp add: deleteSelectedItems_def Let_def case_prod_beta loadEntries_def
      loadEntries_then_effects loop_deletedCount loop_errors loop_shouldNavigate
      cong: option.case_cong)

section \<open>Selection\<close>

text \<open>
  C2. For a selection \<open>S\<close> and the identifiers \<open>V\<close> of the visible entries: \<open>selectAll\<close>
  yields \<open>S - V\<close> when \<open>V\<close> is not empty and all of it is selected, and \<open>S \<union> V\<close> in every
  other case, so identifiers selected earlier and not visible now stay selected. With no
  visible entry the selection keeps its members; in a state the component can reach
  (\<open>run\<close>) the whole state is left as it was.
\<close>

theorem selectAll_spec:
  "set (selectedItems (selectAll filteredList s)) =
     (if set (map id' filteredList) \<noteq> {} \<and> set (map id' filteredList) \<subseteq> set (selectedItems s)
      then set (selectedItems s) - set (map id' filteredList)
      else set (selectedItems s) \<union> set (map id' filteredList))
   \<and> set (selectedItems (selectAll [] s)) = set (selectedItems s)
   \<and> selectAll [] (run env actions) = run env actions"
  using selectAll_set [of filteredList s] selectAll_set [of "[]" s]
    selectAll_empty_distinct [OF run_distinct, of env actions]
  by simp

text \<open>
  The three cases at a selection \<open>x, a\<close>: the visible \<open>a, b\<close> are added, the visible
  \<open>a\<close> alone is removed, and no visible entry changes nothing.
\<close>

theorem selectAll_spec_witness:
  "set (selectedItems (selectAll [chat ''a'', chat ''b''] (initialState\<lparr>selectedItems := [''x'', ''a'']\<rparr>)))
     = {''x'', ''a'', ''b''}
   \<and> set (selectedItems (selectAll [chat ''a''] (initialState\<lparr>selectedItems := [''x'', ''a'']\<rparr>)))
     = {''x''}
   \<and> set (selectedItems (selectAll [] (initialState\<lparr>selectedItems := [''x'', ''a'']\<rparr>)))
     = {''x'', ''a''}"
proof -
  let ?s = "initialState\<lparr>selectedItems := [''x'', ''a'']\<rparr>"
  have u: "set (selectedItems (selectAll [chat ''a'', chat ''b''] ?s)) = {''x'', ''a''} \<union> {''a'', ''b''}"
    using selectAll_spec [where filteredList = "[chat ''a'', chat ''b'']" and s = ?s
        and env = "exampleEnv [] [] None" and actions = "[]"]
    by (simp add: chat_def)
  have d: "set (selectedItems (selectAll [chat ''a''] ?s)) = {''x'', ''a''} - {''a''}"
    using selectAll_spec [where filteredList = "[chat ''a'']" and s = ?s
        and env = "exampleEnv [] [] None" and actions = "[]"]
    by (simp add: chat_def)
  have e: "set (selectedItems (selectAll [] ?s)) = {''x'', ''a''}"
    using selectAll_spec [where filteredList = "[]" and s = ?s
        and env = "exampleEnv [] [] None" and actions = "[]"]
    by simp
  show ?thesis
    using u d e by auto
qed

text \<open>
  C3. \<open>toggleSelectionMode\<close> called while selection mode is on turns it off and empties
  the selection; called while it is off it turns it on and leaves the selection as it was.
\<close>

theorem toggleSelectionMode_spec:
  "selectionMode (toggleSelectionMode s) = (\<not> selectionMode s) \<and>
   selectedItems (toggleSelectionMode s) = (if selectionMode s then [] else selectedItems s)"
  by (simp add: toggleSelectionMode_def)

text \<open>
  Leaving selection mode with \<open>a\<close> selected, and entering it with \<open>a\<close> selected.
\<close>

theorem toggleSelectionMode_spec_witness:
  "\<not> selectionMode (toggleSelectionMode (initialState\<lparr>selectionMode := True, selectedItems := [''a'']\<rparr>))
   \<and> selectedItems (toggleSelectionMode (initialState\<lparr>selectionMode := True, selectedItems := [''a'']\<rparr>)) = []
   \<and> selectionMode (toggleSelectionMode (initialState\<lparr>selectedItems := [''a'']\<rparr>))
   \<and> selectedItems (toggleSelectionMode (initialState\<lparr>selectedItems := [''a'']\<rparr>)) = [''a'']"
  using toggleSelectionMode_spec [of "initialState\<lparr>selectionMode := True, selectedItems := [''a'']\<rparr>"]
    toggleSelectionMode_spec [of "initialState\<lparr>selectedItems := [''a'']\<rparr>"]
  by (simp add: initialState_def)

text \<open>
  C4. \<open>toggleItemSelection i\<close> removes \<open>i\<close> from the selection when it is there and adds
  it otherwise, whatever the entry list holds (the list, the dialog and the mode are not
  touched and not read). So after \<open>n\<close> calls with the same identifier its membership is
  the original one for even \<open>n\<close> and the opposite for odd \<open>n\<close>, and two calls in a row
  give back the same set of selected identifiers.
\<close>

theorem toggleItemSelection_spec:
  "set (selectedItems (toggleItemSelection i s)) =
     (if i \<in> set (selectedItems s) then set (selectedItems s) - {i}
      else insert i (set (selectedItems s)))
   \<and> (i \<in> set (selectedItems ((toggleItemSelection i ^^ n) s))) =
       (if even n then i \<in> set (selectedItems s) else i \<notin> set (selectedItems s))
   \<and> set (selectedItems (toggleItemSelection i (toggleItemSelection i s))) = set (selectedItems s)
   \<and> list' (toggleItemSelection i s) = list' s
   \<and> dialogContent (toggleItemSelection i s) = dialogContent s
   \<and> selectionMode (toggleItemSelection i s) = selectionMode s"
proof -
  have "set (selectedItems (toggleItemSelection i (toggleItemSelection i s))) = set (selectedItems s)"
    by (auto simp: toggle_set)
  moreover have "list' (toggleItemSelection i s) = list' s"
    "dialogContent (toggleItemSelection i s) = dialogContent s"
    "selectionMode (toggleItemSelection i s) = selectionMode s"
    by (simp_all add: toggleItemSelection_def Let_def)
  ultimately show ?thesis
    using toggle_set [of i s] toggle_iter [of i n s] by simp
qed

text \<open>
  Removing the selected \<open>a\<close>, adding the unknown \<open>c\<close>, and three calls on \<open>a\<close>.
\<close>

theorem toggleItemSelection_spec_witness:
  "set (selectedItems (toggleItemSelection ''a'' (initialState\<lparr>selectedItems := [''a'', ''b'']\<rparr>))) = {''b''}
   \<and> set (selectedItems (toggleItemSelection ''c'' (initialState\<lparr>selectedItems := [''a'', ''b'']\<rparr>)))
       = {''a'', ''b'', ''c''}
   \<and> ''a'' \<notin> set (selectedItems ((toggleItemSelection ''a'' ^^ 3) (initialState\<lparr>selectedItems := [''a'', ''b'']\<rparr>)))"
  using toggleItemSelection_spec [of "''a''" "initialState\<lparr>selectedItems := [''a'', ''b'']\<rparr>" 3]
    toggleItemSelection_spec [of "''c''" "initialState\<lparr>selectedItems := [''a'', ''b'']\<rparr>" 0]
  by auto

text \<open>
  C10. In every state the component reaches from its initial state, by any sequence of
  its handlers in any surroundings, the selected identifiers are pairwise distinct.
\<close>

theorem selection_distinct: "distinct (selectedItems (run env actions))"
  by (rule run_distinct)

text \<open>
  A run that selects \<open>a\<close> by hand, then everything visible, then \<open>c\<close>.
\<close>

theorem selection_distinct_witness:
  "distinct (selectedItems (run (exampleEnv [] [] None)
     [OpenMenu [chat ''a'', chat ''b''], ToggleSelectionMode, ToggleItemSelection ''a'',
      SelectAll [chat ''a'', chat ''b''], ToggleItemSelection ''c'']))"
  using selection_distinct [of "exampleEnv [] [] None"
     "[OpenMenu [chat ''a'', chat ''b''], ToggleSelectionMode, ToggleItemSelection ''a'',
      SelectAll [chat ''a'', chat ''b''], ToggleItemSelection ''c'']"]
  by simp

section \<open>Requesting and confirming a bulk delete\<close>

text \<open>
  C7. \<open>handleBulkDeleteClick\<close> with nothing selected shows the informational notice
  and changes nothing, so no confirmation becomes pending; with a selection of which no
  identifier is in the entry list it shows the error notice and changes nothing. In no case
  does it call the store or the side cache.
\<close>

theorem handleBulkDeleteClick_rejects:
  "(selectedItems s = [] \<longrightarrow>
      handleBulkDeleteClick s = (s, [ToastInfo ''Select at least one chat to delete'']))
   \<and> (selectedItems s \<noteq> [] \<and> (\<forall>item \<in> set (list' s). id' item \<notin> set (selectedItems s)) \<longrightarrow>
      handleBulkDeleteClick s = (s, [ToastError ''Could not find selected chats'']))
   \<and> filter isStoreCall (snd (handleBulkDeleteClick s)) = []"
  by (auto simp: handleBulkDeleteClick_def Let_def isStoreCall_def filter_empty_conv)

text \<open>
  The empty selection of the initial state, and the selection \<open>b\<close> over the list \<open>a\<close>.
\<close>

theorem handleBulkDeleteClick_rejects_witness:
  "handleBulkDeleteClick initialState = (initialState, [ToastInfo ''Select at least one chat to delete''])
   \<and> handleBulkDeleteClick (initialState\<lparr>list' := [chat ''a''], selectedItems := [''b'']\<rparr>) =
       (initialState\<lparr>list' := [chat ''a''], selectedItems := [''b'']\<rparr>,
        [ToastError ''Could not find selected chats''])"
proof -
  have h1: "selectedItems initialState = []"
    by (simp add: initialState_def)
  have h2: "selectedItems (initialState\<lparr>list' := [chat ''a''], selectedItems := [''b'']\<rparr>) \<noteq> []
     \<and> (\<forall>item \<in> set (list' (initialState\<lparr>list' := [chat ''a''], selectedItems := [''b'']\<rparr>)).
          id' item \<notin> set (selectedItems (initialState\<lparr>list' := [chat ''a''], selectedItems := [''b'']\<rparr>)))"
    by (simp add: chat_def)
  show ?thesis
    using handleBulkDeleteClick_rejects [of initialState] h1
      handleBulkDeleteClick_rejects [of "initialState\<lparr>list' := [chat ''a''], selectedItems := [''b'']\<rparr>"] h2
    by blast
qed

text \<open>
  C1, as the code has it. The danger button of a pending bulk-delete confirmation submits
  the selection as it is when the button is pressed: with the store present, the
  identifiers passed to \<open>deleteById\<close> are exactly \<open>selectedItems\<close> of that moment, in order.
  The pending confirmation holds the entries of the list that were selected when the bulk
  delete was requested; their identifiers are among the selection of that moment, and the
  request leaves the selection as it was.
\<close>

theorem dialogConfirm_bulk_submits_live_selection:
  "(db env \<and> dialogContent s = BulkDelete items \<longrightarrow>
      deleteByIdCalls (effectsOf (dialogConfirm env w s)) = selectedItems s)
   \<and> (filter (\<lambda>item. id' item \<in> set (selectedItems s0)) (list' s0) \<noteq> [] \<longrightarrow>
        dialogContent (fst (handleBulkDeleteClick s0)) =
          BulkDelete (filter (\<lambda>item. id' item \<in> set (selectedItems s0)) (list' s0))
        \<and> selectedItems (fst (handleBulkDeleteClick s0)) = selectedItems s0
        \<and> set (map id' (filter (\<lambda>item. id' item \<in> set (selectedItems s0)) (list' s0)))
            \<subseteq> set (selectedItems s0))"
proof -
  have a: "deleteByIdCalls (effectsOf (dialogConfirm env w s)) = selectedItems s"
    if "db env" and "dialogContent s = BulkDelete items"
  proof (cases "selectedItems s = []")
    case True
    then show ?thesis
      using that by (simp add: dialogConfirm_def deleteSelectedItems_def)
  next
    case False
    have "deleteByIdCalls (effectsOf (deleteSelectedItems env (selectedItems s) w s)) = selectedItems s"
      using that(1) False
      by (simp add: deleteSelectedItems_effects loop_calls split: sum.splits)
    then show ?thesis
      using that by (simp add: dialogConfirm_def Let_def)
  qed
  have b: "dialogContent (fst (handleBulkDeleteClick s0)) =
          BulkDelete (filter (\<lambda>item. id' item \<in> set (selectedItems s0)) (list' s0))
        \<and> selectedItems (fst (handleBulkDeleteClick s0)) = selectedItems s0"
    if "filter (\<lambda>item. id' item \<in> set (selectedItems s0)) (list' s0) \<noteq> []"
  proof -
    have "selectedItems s0 \<noteq> []"
      using that by (auto simp: filter_empty_conv)
    then show ?thesis
      using that by (simp add: handleBulkDeleteClick_def Let_def)
  qed
  show ?thesis
    using a b by auto
qed

text \<open>
  With \<open>a\<close> and \<open>b\<close> selected over the list \<open>a\<close>: the confirmation holds \<open>a\<close>, the
  button submits \<open>a\<close> and \<open>b\<close>.
\<close>

theorem dialogConfirm_bulk_submits_live_selection_witness:
  "deleteByIdCalls (effectsOf (dialogConfirm (exampleEnv [] [] None) [chat ''a'']
      (initialState\<lparr>list' := [chat ''a''], dialogContent := BulkDelete [chat ''a''],
         selectionMode := True, selectedItems := [''a'', ''b'']\<rparr>))) = [''a'', ''b'']
   \<and> dialogContent (fst (handleBulkDeleteClick
        (initialState\<lparr>list' := [chat ''a''], selectionMode := True, selectedItems := [''a'', ''b'']\<rparr>)))
       = BulkDelete [chat ''a'']"
proof -
  let ?E = "exampleEnv [] [] None"
  let ?s = "initialState\<lparr>list' := [chat ''a''], dialogContent := BulkDelete [chat ''a''],
         selectionMode := True, selectedItems := [''a'', ''b'']\<rparr>"
  let ?t = "initialState\<lparr>list' := [chat ''a''], selectionMode := True, selectedItems := [''a'', ''b'']\<rparr>"
  have h1: "db ?E \<and> dialogContent ?s = BulkDelete [chat ''a'']"
    by (simp add: exampleEnv_def)
  have f: "filter (\<lambda>item. id' item \<in> set (selectedItems ?t)) (list' ?t) = [chat ''a'']"
    by (simp add: chat_def)
  show ?thesis
    using dialogConfirm_bulk_submits_live_selection
      [where env = ?E and s = ?s and items = "[chat ''a'']" and w = "[chat ''a'']" and ?s0.0 = ?t] h1 f
    by simp
qed

text \<open>
  C1 as stated fails. In the first run \<open>b\<close> is selected after the bulk delete was
  requested: the confirmation still holds \<open>a\<close> alone, and the button submits \<open>a\<close> and
  \<open>b\<close>. In the second run \<open>b\<close> is selected, then leaves the store and the reloaded list
  before the request: the confirmation holds \<open>a\<close> alone, and the button again submits
  \<open>a\<close> and \<open>b\<close>.
\<close>

theorem bulkDelete_snapshot_counterexample:
  "dialogContent (run (exampleEnv [] [] None)
      [OpenMenu [chat ''a'', chat ''b''], ToggleSelectionMode, ToggleItemSelection ''a'',
       HandleBulkDeleteClick, ToggleItemSelection ''b'']) = BulkDelete [chat ''a'']
   \<and> deleteByIdCalls (effectsOf (dialogConfirm (exampleEnv [] [] None) [chat ''a'', chat ''b'']
       (run (exampleEnv [] [] None)
          [OpenMenu [chat ''a'', chat ''b''], ToggleSelectionMode, ToggleItemSelection ''a'',
           HandleBulkDeleteClick, ToggleItemSelection ''b'']))) = [''a'', ''b'']
   \<and> dialogContent (run (exampleEnv [] [] None)
      [OpenMenu [chat ''a'', chat ''b''], ToggleSelectionMode, ToggleItemSelection ''a'',
       ToggleItemSelection ''b'', OpenMenu [chat ''a''], HandleBulkDeleteClick]) = BulkDelete [chat ''a'']
   \<and> deleteByIdCalls (effectsOf (dialogConfirm (exampleEnv [] [] None) [chat ''a'']
       (run (exampleEnv [] [] None)
          [OpenMenu [chat ''a'', chat ''b''], ToggleSelectionMode, ToggleItemSelection ''a'',
           ToggleItemSelection ''b'', OpenMenu [chat ''a''], HandleBulkDeleteClick]))) = [''a'', ''b'']
   \<and> map id' [chat ''a''] \<noteq> [''a'', ''b'']"
  by code_simp

section \<open>Deleting\<close>

text \<open>
  C8. With the store present, \<open>deleteChat i\<close> always calls \<open>deleteById i\<close>, once and as
  its last step, after trying to remove the side-cache key \<open>snapshot:i\<close>. When that
  removal throws, the only trace is a console message (no notice is shown), and the outcome
  of \<open>deleteChat\<close> is the outcome of \<open>deleteById\<close> either way.
\<close>

theorem deleteChat_snapshot_failure_tolerated:
  assumes "db env"
  shows "fst (deleteChat env i w) = fst (deleteById env i (snd (removeItem env (''snapshot:'' @ i) w)))
    \<and> snd (snd (deleteChat env i w)) =
         RemoveItem (''snapshot:'' @ i)
           # (case fst (removeItem env (''snapshot:'' @ i) w) of
                Inl snapshotError \<Rightarrow> [ConsoleError (''Error deleting snapshot for chat '' @ i @ '':'')]
              | Inr u \<Rightarrow> [])
           @ [DeleteById i]
    \<and> deleteByIdCalls (snd (snd (deleteChat env i w))) = [i]
    \<and> filter isToast (snd (snd (deleteChat env i w))) = []"
  using assms deleteChat_result [of env i w] deleteChat_effects [of env i w]
    deleteChat_calls [of env i w] deleteChat_no_toast [of env i w]
  by simp

text \<open>
  The side cache refuses to remove \<open>snapshot:a\<close>; the chat is deleted all the same.
\<close>

theorem deleteChat_snapshot_failure_tolerated_witness:
  "fst (deleteChat (exampleEnv [''snapshot:a''] [] None) ''a'' [chat ''a'']) = Inr ()
   \<and> snd (snd (deleteChat (exampleEnv [''snapshot:a''] [] None) ''a'' [chat ''a''])) =
       [RemoveItem ''snapshot:a'', ConsoleError ''Error deleting snapshot for chat a:'', DeleteById ''a'']"
proof -
  have h: "db (exampleEnv [''snapshot:a''] [] None)"
    by (simp add: exampleEnv_def)
  show ?thesis
    using deleteChat_snapshot_failure_tolerated [OF h, of "''a''" "[chat ''a'']"]
    by (simp add: exampleEnv_def)
qed

text \<open>
  C9. When the store rejects the deletion of a single chat, the notice shown is the error
  notice and no success notice, and \<open>getAll\<close> is still called, directly after that notice.
  The reload reads the store as the failed deletion left it (the world after \<open>removeItem\<close>
  and the rejected \<open>deleteById\<close>, not the world before the call): when it resolves, the
  displayed list is what that store holds (the entries with a URL identifier and a
  description), so the chat still appears if it is still stored and is gone if the store
  dropped it before rejecting. The only other notice possible is the reload's own error
  message, in which case the list stays as it was.
\<close>

theorem deleteItem_store_failure:
  assumes "db env"
    and "fst (deleteById env (id' item) (snd (removeItem env (''snapshot:'' @ id' item) w))) = Inl e"
  shows "worldOf (deleteItem env item w s) =
           snd (deleteById env (id' item) (snd (removeItem env (''snapshot:'' @ id' item) w)))
    \<and> effectsOf (deleteItem env item w s) =
           RemoveItem (''snapshot:'' @ id' item)
             # (case fst (removeItem env (''snapshot:'' @ id' item) w) of
                  Inl snapshotError \<Rightarrow>
                    [ConsoleError (''Error deleting snapshot for chat '' @ id' item @ '':'')]
                | Inr u \<Rightarrow> [])
             @ [DeleteById (id' item), ToastError ''Failed to delete conversation'', GetAll]
             @ (case getAll env
                       (snd (deleteById env (id' item)
                          (snd (removeItem env (''snapshot:'' @ id' item) w)))) of
                  Inl message \<Rightarrow> [ToastError message] | Inr l \<Rightarrow> [])
    \<and> filter isToast (effectsOf (deleteItem env item w s)) =
           ToastError ''Failed to delete conversation''
             # (case getAll env
                       (snd (deleteById env (id' item)
                          (snd (removeItem env (''snapshot:'' @ id' item) w)))) of
                  Inl message \<Rightarrow> [ToastError message] | Inr l \<Rightarrow> [])
    \<and> list' (stateOf (deleteItem env item w s)) =
          (case getAll env
                  (snd (deleteById env (id' item)
                     (snd (removeItem env (''snapshot:'' @ id' item) w)))) of
             Inl message \<Rightarrow> list' s
           | Inr l \<Rightarrow> filter (\<lambda>item. truthy (urlId item) \<and> truthy (description item)) l)"
proof -
  let ?W = "snd (deleteById env (id' item) (snd (removeItem env (''snapshot:'' @ id' item) w)))"
  obtain res w1 es where d: "deleteChat env (id' item) w = (res, w1, es)"
    by (cases "deleteChat env (id' item) w") auto
  have r: "res = Inl e"
    using deleteChat_result [OF assms(1), of "id' item" w] d assms(2) by simp
  have w1: "w1 = ?W"
    using deleteChat_world [OF assms(1), of "id' item" w] d by simp
  have es: "es = RemoveItem (''snapshot:'' @ id' item)
             # (case fst (removeItem env (''snapshot:'' @ id' item) w) of
                  Inl snapshotError \<Rightarrow>
                    [ConsoleError (''Error deleting snapshot for chat '' @ id' item @ '':'')]
                | Inr u \<Rightarrow> [])
             @ [DeleteById (id' item)]"
    using deleteChat_effects [OF assms(1), of "id' item" w] d by simp
  have t: "filter isToast es = []"
    using deleteChat_no_toast [of env "id' item" w] d by simp
  have world: "worldOf (deleteItem env item w s) = ?W"
    using d r w1 by (simp add: deleteItem_def Let_def case_prod_beta)
  have effects: "effectsOf (deleteItem env item w s) =
      es @ [ToastError ''Failed to delete conversation'', GetAll]
         @ (case getAll env ?W of Inl message \<Rightarrow> [ToastError message] | Inr l \<Rightarrow> [])"
    using d r w1 assms(1)
    by (simp add: deleteItem_def Let_def case_prod_beta loadEntries_def loadEntries_then_effects)
  have toasts: "filter isToast (effectsOf (deleteItem env item w s)) =
      ToastError ''Failed to delete conversation''
        # (case getAll env ?W of Inl message \<Rightarrow> [ToastError message] | Inr l \<Rightarrow> [])"
    using t by (simp add: effects isToast_def split: sum.splits)
  have shown: "list' (stateOf (deleteItem env item w s)) =
      (case getAll env ?W of
         Inl message \<Rightarrow> list' s
       | Inr l \<Rightarrow> filter (\<lambda>item. truthy (urlId item) \<and> truthy (description item)) l)"
    using d r w1 assms(1)
    by (simp add: deleteItem_def Let_def case_prod_beta loadEntries_then_def split: sum.splits)
  show ?thesis
    using world effects toasts shown by (simp add: es)
qed

text \<open>
  The store refuses to delete \<open>a\<close> and holds \<open>a\<close> and \<open>b\<close>; the list, which showed only
  \<open>a\<close>, shows both afterwards. The second store drops \<open>a\<close> before rejecting; the list,
  which showed both, shows \<open>b\<close> alone afterwards.
\<close>

theorem deleteItem_store_failure_witness:
  "effectsOf (deleteItem (exampleEnv [] [''a''] None) (chat ''a'') [chat ''a'', chat ''b'']
      (initialState\<lparr>list' := [chat ''a'']\<rparr>)) =
       [RemoveItem ''snapshot:a'', DeleteById ''a'', ToastError ''Failed to delete conversation'', GetAll]
   \<and> list' (stateOf (deleteItem (exampleEnv [] [''a''] None) (chat ''a'') [chat ''a'', chat ''b'']
      (initialState\<lparr>list' := [chat ''a'']\<rparr>))) = [chat ''a'', chat ''b'']
   \<and> worldOf (deleteItem exampleEnv_gone (chat ''a'') [chat ''a'', chat ''b'']
      (initialState\<lparr>list' := [chat ''a'', chat ''b'']\<rparr>)) = [chat ''b'']
   \<and> filter isToast (effectsOf (deleteItem exampleEnv_gone (chat ''a'') [chat ''a'', chat ''b'']
      (initialState\<lparr>list' := [chat ''a'', chat ''b'']\<rparr>))) = [ToastError ''Failed to delete conversation'']
   \<and> list' (stateOf (deleteItem exampleEnv_gone (chat ''a'') [chat ''a'', chat ''b'']
      (initialState\<lparr>list' := [chat ''a'', chat ''b'']\<rparr>))) = [chat ''b'']"
proof -
  let ?E = "exampleEnv [] [''a''] None"
  let ?G = "exampleEnv_gone"
  let ?w = "[chat ''a'', chat ''b'']"
  have h1: "db ?E"
    by (simp add: exampleEnv_def)
  have h2: "fst (deleteById ?E (id' (chat ''a''))
              (snd (removeItem ?E (''snapshot:'' @ id' (chat ''a'')) ?w)))
            = Inl ''TransactionInactiveError''"
    by (simp add: exampleEnv_def chat_def)
  have k1: "db ?G"
    by (simp add: exampleEnv_gone_def exampleEnv_def)
  have k2: "fst (deleteById ?G (id' (chat ''a''))
              (snd (removeItem ?G (''snapshot:'' @ id' (chat ''a'')) ?w)))
            = Inl ''AbortError''"
    by (simp add: exampleEnv_gone_def exampleEnv_def)
  show ?thesis
    using deleteItem_store_failure [OF h1 h2, of "initialState\<lparr>list' := [chat ''a'']\<rparr>"]
      deleteItem_store_failure [OF k1 k2, of "initialState\<lparr>list' := [chat ''a'', chat ''b'']\<rparr>"]
    by (simp add: exampleEnv_def exampleEnv_gone_def chat_def truthy_def isToast_def)
qed

text \<open>
  C5. A bulk delete that runs (store present, identifiers given) calls \<open>deleteById\<close> for
  every identifier, in order, whatever failed on the way; every identifier either succeeded
  or failed. If any failed, the notice it shows is a warning with the number that succeeded,
  the number requested and the number that failed, and no success notice; the only other
  notice possible is the error message of the reload that follows, should \<open>getAll\<close>
  reject. Afterwards the selection is empty and selection mode is off.
\<close>

theorem deleteSelectedItems_partial_failure:
  assumes "db env" and "ids \<noteq> []"
  shows "deleteByIdCalls (effectsOf (deleteSelectedItems env ids w s)) = ids
    \<and> length (succeededIds env ids w) + length (failedIds env ids w) = length ids
    \<and> (failedIds env ids w \<noteq> [] \<longrightarrow>
         filter isToast (effectsOf (deleteSelectedItems env ids w s)) =
           ToastWarning (''Deleted '' @ string_of_nat (length (succeededIds env ids w)) @ '' of ''
             @ string_of_nat (length ids) @ '' chats. ''
             @ string_of_nat (length (failedIds env ids w)) @ '' failed.'')
           # (case getAll env (worldOf (deleteSelectedItems env ids w s)) of
                Inl message \<Rightarrow> [ToastError message] | Inr l \<Rightarrow> []))
    \<and> selectedItems (stateOf (deleteSelectedItems env ids w s)) = []
    \<and> \<not> selectionMode (stateOf (deleteSelectedItems env ids w s))"
proof -
  let ?r = "deleteSelectedItems env ids w s"
  have calls: "deleteByIdCalls (effectsOf ?r) = ids"
    using assms
    by (simp add: deleteSelectedItems_effects loop_calls split: sum.splits)
  have toasts: "failedIds env ids w \<noteq> [] \<Longrightarrow>
      filter isToast (effectsOf ?r) =
        ToastWarning (''Deleted '' @ string_of_nat (length (succeededIds env ids w)) @ '' of ''
             @ string_of_nat (length ids) @ '' chats. ''
             @ string_of_nat (length (failedIds env ids w)) @ '' failed.'')
         # (case getAll env (worldOf ?r) of Inl message \<Rightarrow> [ToastError message] | Inr l \<Rightarrow> [])"
    using assms
    by (simp add: deleteSelectedItems_effects loop_toasts isToast_def split: sum.splits)
  have sel: "selectedItems (stateOf ?r) = []"
    using assms by (simp add: deleteSelectedItems_selected)
  have mode: "\<not> selectionMode (stateOf ?r)"
    using assms
    by (simp add: deleteSelectedItems_def Let_def case_prod_beta loadEntries_then_mode)
  show ?thesis
    using calls toasts sel mode succeeded_failed_length [of env ids w] by simp
qed

text \<open>
  Deleting \<open>a\<close>, \<open>b\<close> and \<open>c\<close> where the store rejects \<open>b\<close>.
\<close>

theorem deleteSelectedItems_partial_failure_witness:
  "deleteByIdCalls (effectsOf (deleteSelectedItems (exampleEnv [] [''b''] None) [''a'', ''b'', ''c'']
      [chat ''a'', chat ''b'', chat ''c'']
      (initialState\<lparr>selectionMode := True, selectedItems := [''a'', ''b'', ''c'']\<rparr>))) = [''a'', ''b'', ''c'']
   \<and> filter isToast (effectsOf (deleteSelectedItems (exampleEnv [] [''b''] None) [''a'', ''b'', ''c'']
      [chat ''a'', chat ''b'', chat ''c'']
      (initialState\<lparr>selectionMode := True, selectedItems := [''a'', ''b'', ''c'']\<rparr>)))
       = [ToastWarning ''Deleted 2 of 3 chats. 1 failed.'']
   \<and> selectedItems (stateOf (deleteSelectedItems (exampleEnv [] [''b''] None) [''a'', ''b'', ''c'']
      [chat ''a'', chat ''b'', chat ''c'']
      (initialState\<lparr>selectionMode := True, selectedItems := [''a'', ''b'', ''c'']\<rparr>))) = []
   \<and> \<not> selectionMode (stateOf (deleteSelectedItems (exampleEnv [] [''b''] None) [''a'', ''b'', ''c'']
      [chat ''a'', chat ''b'', chat ''c'']
      (initialState\<lparr>selectionMode := True, selectedItems := [''a'', ''b'', ''c'']\<rparr>)))"
proof -
  let ?E = "exampleEnv [] [''b''] None"
  let ?w = "[chat ''a'', chat ''b'', chat ''c'']"
  let ?s = "initialState\<lparr>selectionMode := True, selectedItems := [''a'', ''b'', ''c'']\<rparr>"
  have h1: "db ?E"
    by (simp add: exampleEnv_def)
  have h2: "[''a'', ''b'', ''c''] \<noteq> []"
    by simp
  have h3: "failedIds ?E [''a'', ''b'', ''c''] ?w \<noteq> []"
    by code_simp
  have m: "''Deleted '' @ string_of_nat (length (succeededIds ?E [''a'', ''b'', ''c''] ?w)) @ '' of ''
             @ string_of_nat (length [''a'', ''b'', ''c'']) @ '' chats. ''
             @ string_of_nat (length (failedIds ?E [''a'', ''b'', ''c''] ?w)) @ '' failed.''
           = ''Deleted 2 of 3 chats. 1 failed.''"
    by code_simp
  have g: "(case getAll ?E (worldOf (deleteSelectedItems ?E [''a'', ''b'', ''c''] ?w ?s)) of
              Inl message \<Rightarrow> [ToastError message] | Inr l \<Rightarrow> []) = []"
    by code_simp
  show ?thesis
    using deleteSelectedItems_partial_failure [OF h1 h2, of ?w ?s] h3 m g
    by simp
qed

text \<open>
  C6. If the chat that is active when the bulk delete starts is among the identifiers
  deleted successfully, the bulk delete assigns the root path exactly once, directly after
  calling \<open>getAll\<close>; nothing follows it but what the reload shows when it settles. If the
  active chat was not deleted successfully (also when no chat is active, the store is
  absent or no identifier is given), it never navigates.
\<close>

theorem deleteSelectedItems_navigation:
  "if (case chatId env w of None \<Rightarrow> False | Some a \<Rightarrow> a \<in> set (succeededIds env ids w))
   then filter isNavigation (effectsOf (deleteSelectedItems env ids w s)) = [SetPathname ''/'']
      \<and> dropWhile (\<lambda>e. e \<noteq> GetAll) (effectsOf (deleteSelectedItems env ids w s)) =
          GetAll # SetPathname ''/''
            # (case getAll env (worldOf (deleteSelectedItems env ids w s)) of
                 Inl message \<Rightarrow> [ToastError message] | Inr l \<Rightarrow> [])
   else filter isNavigation (effectsOf (deleteSelectedItems env ids w s)) = []"
proof (cases "db env \<and> ids \<noteq> []")
  case False
  have "succeededIds env ids w = []" if "\<not> db env" for ids w
    using that
    by (induction ids arbitrary: w) (simp_all add: succeededIds_def deleteChat_def)
  moreover have "succeededIds env [] w = []"
    by (simp add: succeededIds_def)
  ultimately have "succeededIds env ids w = []"
    using False by (cases "db env") auto
  moreover have "effectsOf (deleteSelectedItems env ids w s) = []"
    using False by (auto simp: deleteSelectedItems_def)
  ultimately show ?thesis
    by (simp split: option.splits)
next
  case True
  let ?t = "trace (deleteSelectedItems_loop env (chatId env w) ids
              \<lparr>deletedCount = 0, errors = [], shouldNavigate = False, world = w, trace = []\<rparr>)"
  have nav: "filter isNavigation ?t = []"
    by (simp add: loop_navigations)
  have noget: "GetAll \<notin> set ?t"
    by (rule loop_no_GetAll) simp
  then have dw: "dropWhile (\<lambda>e. e \<noteq> GetAll) (?t @ rest) = dropWhile (\<lambda>e. e \<noteq> GetAll) rest" for rest
    by (intro dropWhile_append2) auto
  show ?thesis
    using True nav
    by (simp add: deleteSelectedItems_effects dw isNavigation_def split: sum.splits)
qed

text \<open>
  Deleting \<open>a\<close> and \<open>b\<close> while \<open>a\<close> is active: once with both deletions succeeding,
  once with the store rejecting \<open>a\<close>.
\<close>

theorem deleteSelectedItems_navigation_witness:
  "filter isNavigation (effectsOf (deleteSelectedItems (exampleEnv [] [] (Some ''a'')) [''a'', ''b'']
      [chat ''a'', chat ''b''] (initialState\<lparr>selectionMode := True, selectedItems := [''a'', ''b'']\<rparr>)))
     = [SetPathname ''/'']
   \<and> dropWhile (\<lambda>e. e \<noteq> GetAll) (effectsOf (deleteSelectedItems (exampleEnv [] [] (Some ''a'')) [''a'', ''b'']
      [chat ''a'', chat ''b''] (initialState\<lparr>selectionMode := True, selectedItems := [''a'', ''b'']\<rparr>)))
     = [GetAll, SetPathname ''/'']
   \<and> filter isNavigation (effectsOf (deleteSelectedItems (exampleEnv [] [''a''] (Some ''a'')) [''a'', ''b'']
      [chat ''a'', chat ''b''] (initialState\<lparr>selectionMode := True, selectedItems := [''a'', ''b'']\<rparr>)))
     = []"
proof -
  let ?E = "exampleEnv [] [] (Some ''a'')"
  let ?F = "exampleEnv [] [''a''] (Some ''a'')"
  let ?w = "[chat ''a'', chat ''b'']"
  let ?s = "initialState\<lparr>selectionMode := True, selectedItems := [''a'', ''b'']\<rparr>"
  have c1: "(case chatId ?E ?w of None \<Rightarrow> False | Some a \<Rightarrow> a \<in> set (succeededIds ?E [''a'', ''b''] ?w))"
    by code_simp
  have c2: "\<not> (case chatId ?F ?w of None \<Rightarrow> False | Some a \<Rightarrow> a \<in> set (succeededIds ?F [''a'', ''b''] ?w))"
    by code_simp
  have g: "(case getAll ?E (worldOf (deleteSelectedItems ?E [''a'', ''b''] ?w ?s)) of
              Inl message \<Rightarrow> [ToastError message] | Inr l \<Rightarrow> []) = []"
    by code_simp
  show ?thesis
    using deleteSelectedItems_navigation [where env = ?E and w = ?w and ids = "[''a'', ''b'']" and s = ?s]
      deleteSelectedItems_navigation [where env = ?F and w = ?w and ids = "[''a'', ''b'']" and s = ?s]
      c1 c2 g
    by simp
qed

end
